theory Spec2Isabelle
  imports Main
begin

section \<open>The values script.js handles\<close>

text \<open>
  \<^verbatim>\<open>src/script.js\<close> is one function, \<^verbatim>\<open>upload\<close>. It reads the element with id
  \<^verbatim>\<open>msg\<close>, writes its \<^verbatim>\<open>innerText\<close>, calls \<^verbatim>\<open>fetch\<close> and hangs three continuations on
  the promise. The values it meets are the ones \<^verbatim>\<open>res.json()\<close> can deliver, and
  \<^verbatim>\<open>undefined\<close>, which a property read adds. A number is kept as the text that
  JavaScript's number-to-string conversion gives for it (doubles are not modelled); an
  object is the list of its own properties (a parsed object has each key once; if a list
  names a key twice, its first entry is the one read).
\<close>

datatype jsval =
    JUndefined
  | JNull
  | JBool bool
  | JNum string
  | JStr string
  | JArray "jsval list"
  | JObject "(string \<times> jsval) list"

datatype js_error = TypeError | SyntaxError | AbortError

text \<open>How a piece of code ends: with a value, or by throwing.\<close>

datatype completion = Normal jsval | Throw js_error

text \<open>
  \<^verbatim>\<open>data.message\<close>: reading a property of \<^verbatim>\<open>null\<close> or \<^verbatim>\<open>undefined\<close> throws a
  TypeError; an object gives its own property of that name; every other value (and an
  object without the property) gives \<^verbatim>\<open>undefined\<close>.
\<close>

fun get_message :: "jsval \<Rightarrow> js_error + jsval" where
  "get_message JUndefined = Inl TypeError"
| "get_message JNull = Inl TypeError"
| "get_message (JObject props) =
     (case map_of props ''message'' of None \<Rightarrow> Inr JUndefined | Some v \<Rightarrow> Inr v)"
| "get_message _ = Inr JUndefined"

text \<open>
  The texts of the elements of an array, joined by commas from left to right; the first
  element whose conversion threw ends the join with that throw.
\<close>

fun join_commas :: "(js_error + string) list \<Rightarrow> js_error + string" where
  "join_commas [] = Inr []"
| "join_commas [r] = r"
| "join_commas (r # t # rs) =
     (case r of
        Inl e \<Rightarrow> Inl e
      | Inr s \<Rightarrow> (case join_commas (t # rs) of Inl e \<Rightarrow> Inl e | Inr u \<Rightarrow> Inr (s @ '','' @ u)))"

text \<open>
  JavaScript's conversion of a value to a string, which can throw. An array is its
  elements joined by commas, \<^verbatim>\<open>null\<close> and \<^verbatim>\<open>undefined\<close> elements as the empty string. An
  object is converted by calling its \<^verbatim>\<open>toString\<close>: a parsed object without a key of that
  name inherits the one that gives \<^verbatim>\<open>[object Object]\<close>; with such a key, the property is a
  parsed value and so not callable, the inherited \<^verbatim>\<open>valueOf\<close> (or an own one, not callable
  either) gives no primitive, and the conversion throws a TypeError.
\<close>

fun to_string :: "jsval \<Rightarrow> js_error + string" where
  "to_string JUndefined = Inr ''undefined''"
| "to_string JNull = Inr ''null''"
| "to_string (JBool b) = Inr (if b then ''true'' else ''false'')"
| "to_string (JNum s) = Inr s"
| "to_string (JStr s) = Inr s"
| "to_string (JArray xs) =
     join_commas
       (map (\<lambda>x. case x of JUndefined \<Rightarrow> Inr [] | JNull \<Rightarrow> Inr [] | _ \<Rightarrow> to_string x) xs)"
| "to_string (JObject props) =
     (case map_of props ''toString'' of
        None \<Rightarrow> Inr ''[object Object]''
      | Some f \<Rightarrow> Inl TypeError)"

text \<open>
  The setter of \<^verbatim>\<open>innerText\<close> takes a string; the assigned value is converted, with
  \<^verbatim>\<open>null\<close> becoming the empty string and \<^verbatim>\<open>undefined\<close> the text \<^verbatim>\<open>undefined\<close>. A throw
  of the conversion is a throw of the assignment.
\<close>

definition to_DOMString :: "jsval \<Rightarrow> js_error + string" where
  "to_DOMString v = (case v of JNull \<Rightarrow> Inr [] | _ \<Rightarrow> to_string v)"

section \<open>The page\<close>

record http_request =
  req_url :: string
  req_method :: string
  req_body :: "string option"
  req_headers :: "(string \<times> string) list"

text \<open>What the page shows to the outside, in the order it happens.\<close>

datatype effect = SetText string string | Requested http_request

text \<open>A reference to an element, as \<^verbatim>\<open>getElementById\<close> returns it.\<close>

datatype ref = Null | Elem string

text \<open>
  One promise chain
  \<^verbatim>\<open>fetch(...).then(res => res.json()).then(data => ...).catch(() => ...)\<close>:
  the \<^verbatim>\<open>msg\<close> its continuations closed over, and what it waits for.
\<close>

datatype phase = AwaitResponse | AwaitBody | Settled

record chain =
  msg :: ref
  phase :: phase

text \<open>
  The page: its elements by id, each with its \<^verbatim>\<open>innerText\<close>; the chains started so far
  (the n-th call of \<^verbatim>\<open>upload\<close> that reaches \<^verbatim>\<open>fetch\<close> starts chain n, counting from 0);
  the effects so far; and the rejections no handler took.
\<close>

record page =
  elements :: "string \<rightharpoonup> string"
  chains :: "chain list"
  effects :: "effect list"
  unhandled :: "js_error list"

definition getElementById :: "page \<Rightarrow> string \<Rightarrow> ref" where
  "getElementById p k = (case elements p k of None \<Rightarrow> Null | Some _ \<Rightarrow> Elem k)"

text \<open>
  \<^verbatim>\<open>r.innerText = v\<close>. On \<^verbatim>\<open>null\<close> it throws a TypeError and nothing changes. On an
  element the value is converted first: if the conversion throws, the assignment throws
  and nothing changes; otherwise the text is replaced, and the value of the assignment
  is \<^verbatim>\<open>v\<close>.
\<close>

fun set_innerText :: "ref \<Rightarrow> jsval \<Rightarrow> page \<Rightarrow> completion \<times> page" where
  "set_innerText Null v p = (Throw TypeError, p)"
| "set_innerText (Elem k) v p =
     (case to_DOMString v of
        Inl e \<Rightarrow> (Throw e, p)
      | Inr t \<Rightarrow>
          (Normal v,
           p\<lparr>elements := (elements p)(k \<mapsto> t), effects := effects p @ [SetText k t]\<rparr>))"

text \<open>
  \<^verbatim>\<open>fetch(u, { method: m })\<close>: the request goes out with that url and method; the
  options object names no body and no headers.
\<close>

definition fetch :: "string \<Rightarrow> string \<Rightarrow> page \<Rightarrow> page" where
  "fetch u m p =
     p\<lparr>effects := effects p @ [Requested \<lparr>req_url = u, req_method = m, req_body = None, req_headers = []\<rparr>]\<rparr>"

text \<open>Hanging the three continuations on the promise: a new chain, waiting for the response.\<close>

definition attach :: "ref \<Rightarrow> page \<Rightarrow> page" where
  "attach r p = p\<lparr>chains := chains p @ [\<lparr>msg = r, phase = AwaitResponse\<rparr>]\<rparr>"

section \<open>upload and its continuations\<close>

text \<open>
  \<^verbatim>\<open>
  function upload() {
    const msg = document.getElementById("msg");
    msg.innerText = "Connecting...";
    fetch("/api/process", { method: "POST" })
      .then(res => res.json())
      .then(data => msg.innerText = data.message)
      .catch(() => msg.innerText = "Error");
  }
  \<close>
  The synchronous part: a throw in the second line leaves the function at once; otherwise
  the function ends without a \<^verbatim>\<open>return\<close>, so its value is \<^verbatim>\<open>undefined\<close>.
\<close>

definition upload :: "page \<Rightarrow> completion \<times> page" where
  "upload p =
     (let m = getElementById p ''msg'' in
      case set_innerText m (JStr ''Connecting...'') p of
        (Throw e, p1) \<Rightarrow> (Throw e, p1)
      | (Normal _, p1) \<Rightarrow> (Normal JUndefined, attach m (fetch ''/api/process'' ''POST'' p1)))"

text \<open>
  \<^verbatim>\<open>data => msg.innerText = data.message\<close>: it throws when the read of \<^verbatim>\<open>message\<close>
  throws and when the assignment does, that is, when the conversion of the message throws.
\<close>

definition on_data :: "ref \<Rightarrow> jsval \<Rightarrow> page \<Rightarrow> completion \<times> page" where
  "on_data m d p =
     (case get_message d of Inl e \<Rightarrow> (Throw e, p) | Inr v \<Rightarrow> set_innerText m v p)"

text \<open>\<^verbatim>\<open>() => msg.innerText = "Error"\<close>\<close>

definition on_error :: "ref \<Rightarrow> page \<Rightarrow> completion \<times> page" where
  "on_error m p = set_innerText m (JStr ''Error'') p"

text \<open>
  A rejection travelling down the chain reaches \<^verbatim>\<open>.catch\<close>, whatever its reason; only a
  throw of the catch handler itself is left unhandled.
\<close>

definition rejected :: "ref \<Rightarrow> js_error \<Rightarrow> page \<Rightarrow> page" where
  "rejected m e p =
     (case on_error m p of
        (Normal _, p1) \<Rightarrow> p1
      | (Throw e1, p1) \<Rightarrow> p1\<lparr>unhandled := unhandled p1 @ [e1]\<rparr>)"

text \<open>
  The promise of \<^verbatim>\<open>res.json()\<close> fulfilled: the second continuation runs, and a throw
  inside it is a rejection that \<^verbatim>\<open>.catch\<close> takes.
\<close>

definition fulfilled :: "ref \<Rightarrow> jsval \<Rightarrow> page \<Rightarrow> page" where
  "fulfilled m d p =
     (case on_data m d p of
        (Normal _, p1) \<Rightarrow> p1
      | (Throw e, p1) \<Rightarrow> rejected m e p1)"

section \<open>The event loop\<close>

text \<open>
  What can happen to the page: a call of \<^verbatim>\<open>upload\<close>; the promise of \<^verbatim>\<open>fetch\<close> of
  chain i rejecting (a network failure) or fulfilling with a response of some status; the
  promise of \<^verbatim>\<open>res.json()\<close> of chain i rejecting (the body is not JSON, or cannot be
  read) or fulfilling with the parsed value. Each runs to its end before the next starts.
  A request that hangs is one whose events never come.
\<close>

datatype event =
    Upload
  | FetchRejected nat js_error
  | FetchFulfilled nat nat
  | JsonRejected nat js_error
  | JsonFulfilled nat jsval

definition set_phase :: "nat \<Rightarrow> phase \<Rightarrow> page \<Rightarrow> page" where
  "set_phase i ph p = p\<lparr>chains := (chains p)[i := (chains p ! i)\<lparr>phase := ph\<rparr>]\<rparr>"

definition waiting :: "page \<Rightarrow> nat \<Rightarrow> phase \<Rightarrow> bool" where
  "waiting p i ph \<longleftrightarrow> i < length (chains p) \<and> phase (chains p ! i) = ph"

text \<open>
  A promise settles once: an event for a chain that does not exist or is not waiting for
  it changes nothing. The first continuation, \<^verbatim>\<open>res => res.json()\<close>, does not look at the
  status and touches nothing on the page.
\<close>

fun step :: "page \<Rightarrow> event \<Rightarrow> page" where
  "step p Upload = snd (upload p)"
| "step p (FetchRejected i e) =
     (if waiting p i AwaitResponse
      then rejected (msg (chains p ! i)) e (set_phase i Settled p) else p)"
| "step p (FetchFulfilled i st) =
     (if waiting p i AwaitResponse then set_phase i AwaitBody p else p)"
| "step p (JsonRejected i e) =
     (if waiting p i AwaitBody
      then rejected (msg (chains p ! i)) e (set_phase i Settled p) else p)"
| "step p (JsonFulfilled i d) =
     (if waiting p i AwaitBody
      then fulfilled (msg (chains p ! i)) d (set_phase i Settled p) else p)"

definition run :: "page \<Rightarrow> event list \<Rightarrow> page" where
  "run p es = foldl step p es"

section \<open>Reading a page\<close>

text \<open>The text of the status label, the element with id \<^verbatim>\<open>msg\<close>; None when the page has none.\<close>

definition label :: "page \<Rightarrow> string option" where
  "label p = elements p ''msg''"

text \<open>The requests that went out, oldest first.\<close>

fun requests :: "effect list \<Rightarrow> http_request list" where
  "requests [] = []"
| "requests (Requested r # fs) = r # requests fs"
| "requests (SetText k t # fs) = requests fs"

text \<open>The request \<^verbatim>\<open>upload\<close> names: \<^verbatim>\<open>fetch("/api/process", { method: "POST" })\<close>.\<close>

definition the_request :: http_request where
  "the_request = \<lparr>req_url = ''/api/process'', req_method = ''POST'', req_body = None, req_headers = []\<rparr>"

text \<open>
  A page on which \<^verbatim>\<open>upload\<close> can work: the label exists, and every chain on it was started
  by \<^verbatim>\<open>upload\<close>, so its continuations closed over that label.
\<close>

definition page_ok :: "page \<Rightarrow> bool" where
  "page_ok p \<longleftrightarrow> elements p ''msg'' \<noteq> None \<and> list_all (\<lambda>c. msg c = Elem ''msg'') (chains p)"

text \<open>No request is in flight.\<close>

definition quiet :: "page \<Rightarrow> bool" where
  "quiet p \<longleftrightarrow> list_all (\<lambda>c. phase c = Settled) (chains p)"

text \<open>The chain an event belongs to, if it is a network event.\<close>

fun about :: "nat \<Rightarrow> event \<Rightarrow> bool" where
  "about i Upload = False"
| "about i (FetchRejected j e) = (i = j)"
| "about i (FetchFulfilled j st) = (i = j)"
| "about i (JsonRejected j e) = (i = j)"
| "about i (JsonFulfilled j d) = (i = j)"

text \<open>
  How a request can end, and the events that deliver each ending to chain i: the network
  fails; a response of some status comes and its body does not parse; a response comes and
  its body parses to a value.
\<close>

datatype outcome =
    NetworkFailure js_error
  | BadBody nat js_error
  | Body nat jsval

fun events_of :: "nat \<Rightarrow> outcome \<Rightarrow> event list" where
  "events_of i (NetworkFailure e) = [FetchRejected i e]"
| "events_of i (BadBody st e) = [FetchFulfilled i st, JsonRejected i e]"
| "events_of i (Body st d) = [FetchFulfilled i st, JsonFulfilled i d]"

text \<open>
  The text the continuations write for an ending: the converted \<^verbatim>\<open>message\<close> when the body
  parsed and neither the read nor the conversion threw, \<^verbatim>\<open>Error\<close> otherwise.
\<close>

fun outcome_text :: "outcome \<Rightarrow> string" where
  "outcome_text (NetworkFailure e) = ''Error''"
| "outcome_text (BadBody st e) = ''Error''"
| "outcome_text (Body st d) =
     (case get_message d of
        Inl e \<Rightarrow> ''Error''
      | Inr v \<Rightarrow> (case to_DOMString v of Inl e \<Rightarrow> ''Error'' | Inr t \<Rightarrow> t))"

text \<open>An empty page that has the label, showing nothing yet.\<close>

definition page0 :: page where
  "page0 = \<lparr>elements = [''msg'' \<mapsto> []], chains = [], effects = [], unhandled = []\<rparr>"


text \<open>What an event does to the phase of the chain it is about.\<close>

fun phase_step :: "phase \<Rightarrow> event \<Rightarrow> phase" where
  "phase_step AwaitResponse (FetchRejected i e) = Settled"
| "phase_step AwaitResponse (FetchFulfilled i st) = AwaitBody"
| "phase_step AwaitBody (JsonRejected i e) = Settled"
| "phase_step AwaitBody (JsonFulfilled i d) = Settled"
| "phase_step ph e = ph"

text \<open>A status in the range 200 to 299, the one \<^verbatim>\<open>Response.ok\<close> reports; upload never asks.\<close>

definition is_2xx :: "nat \<Rightarrow> bool" where
  "is_2xx st \<longleftrightarrow> 200 \<le> st \<and> st < 300"

text \<open>The promise of \<^verbatim>\<open>fetch\<close> of chain i settling, either way.\<close>

fun settles_fetch :: "nat \<Rightarrow> event \<Rightarrow> bool" where
  "settles_fetch i (FetchRejected j e) = (i = j)"
| "settles_fetch i (FetchFulfilled j st) = (i = j)"
| "settles_fetch i e = False"

section \<open>What one event does\<close>

text \<open>The operations of the page, unfolded together.\<close>

lemmas ops = upload_def getElementById_def fetch_def attach_def on_data_def on_error_def
  rejected_def fulfilled_def set_phase_def waiting_def

lemma upload_ok:
  "page_ok p \<Longrightarrow> upload p = (Normal JUndefined,
     p\<lparr>elements := (elements p)(''msg'' \<mapsto> ''Connecting...''),
       effects := effects p @ [SetText ''msg'' ''Connecting...'', Requested the_request],
       chains := chains p @ [\<lparr>msg = Elem ''msg'', phase = AwaitResponse\<rparr>]\<rparr>)"
  by (auto simp: page_ok_def ops to_DOMString_def the_request_def)

lemma rejected_ok:
  "rejected (Elem ''msg'') e p = p\<lparr>elements := (elements p)(''msg'' \<mapsto> ''Error''),
       effects := effects p @ [SetText ''msg'' ''Error'']\<rparr>"
  by (simp add: ops to_DOMString_def)

lemma fulfilled_ok:
  "fulfilled (Elem ''msg'') d p =
     p\<lparr>elements := (elements p)(''msg'' \<mapsto> outcome_text (Body st d)),
       effects := effects p @ [SetText ''msg'' (outcome_text (Body st d))]\<rparr>"
  by (simp add: ops to_DOMString_def split: sum.splits)

text \<open>A page that is ok stays ok, and its chains keep the label they closed over.\<close>

lemma page_ok_msg: "page_ok p \<Longrightarrow> i < length (chains p) \<Longrightarrow> msg (chains p ! i) = Elem ''msg''"
  by (simp add: page_ok_def list_all_length)

lemma page_ok_step: "page_ok p \<Longrightarrow> page_ok (step p e)"
  by (cases e)
     (auto simp: upload_ok page_ok_def rejected_ok fulfilled_ok [of _ _  0] set_phase_def
        waiting_def list_all_iff dest: set_update_subset_insert [THEN subsetD])

lemma run_Nil [simp]: "run p [] = p"
  by (simp add: run_def)

lemma run_Cons [simp]: "run p (e # es) = run (step p e) es"
  by (simp add: run_def)

lemma run_append [simp]: "run p (es @ fs) = run (run p es) fs"
  by (simp add: run_def)

lemma page_ok_run: "page_ok p \<Longrightarrow> page_ok (run p es)"
  by (induction es arbitrary: p) (simp_all add: page_ok_step)

text \<open>Only a call of upload adds a chain, and only the events about a chain move it.\<close>

lemma length_chains_step:
  "page_ok p \<Longrightarrow> length (chains (step p e)) = length (chains p) + (if e = Upload then 1 else 0)"
  by (cases e) (auto simp: upload_ok rejected_ok fulfilled_ok [of _ _ 0] page_ok_msg waiting_def set_phase_def)

lemma length_chains_run:
  "page_ok p \<Longrightarrow> length (chains (run p es)) = length (chains p) + count_list es Upload"
  by (induction es arbitrary: p) (simp_all add: page_ok_step length_chains_step)

lemma phase_step_at:
  "page_ok p \<Longrightarrow> k < length (chains p) \<Longrightarrow>
   phase (chains (step p e) ! k) =
     (if about k e then phase_step (phase (chains p ! k)) e else phase (chains p ! k))"
  by (cases e; cases "phase (chains p ! k)")
     (auto simp: upload_ok rejected_ok fulfilled_ok [of _ _ 0] page_ok_msg waiting_def
        set_phase_def nth_append nth_list_update)

lemma phase_run_at:
  "page_ok p \<Longrightarrow> k < length (chains p) \<Longrightarrow>
   phase (chains (run p es) ! k) = foldl phase_step (phase (chains p ! k)) (filter (about k) es)"
proof (induction es arbitrary: p)
  case Nil
  then show ?case by simp
next
  case (Cons e es)
  have "k < length (chains (step p e))"
    using Cons.prems by (simp add: length_chains_step)
  with Cons show ?case
    by (simp add: page_ok_step phase_step_at)
qed

text \<open>Requests, unhandled rejections and the growth of the effects.\<close>

lemma requests_append [simp]: "requests (fs @ gs) = requests fs @ requests gs"
  by (induction fs rule: requests.induct) simp_all

lemma requests_step:
  "page_ok p \<Longrightarrow> requests (effects (step p e)) =
     requests (effects p) @ (if e = Upload then [the_request] else [])"
  by (cases e) (auto simp: upload_ok rejected_ok fulfilled_ok [of _ _ 0] page_ok_msg waiting_def set_phase_def)

lemma requests_run:
  "page_ok p \<Longrightarrow> requests (effects (run p es)) =
     requests (effects p) @ replicate (count_list es Upload) the_request"
  by (induction es arbitrary: p) (simp_all add: page_ok_step requests_step replicate_append_same)

lemma unhandled_step: "page_ok p \<Longrightarrow> unhandled (step p e) = unhandled p"
  by (cases e) (auto simp: upload_ok rejected_ok fulfilled_ok [of _ _ 0] page_ok_msg waiting_def set_phase_def)

lemma unhandled_run: "page_ok p \<Longrightarrow> unhandled (run p es) = unhandled p"
  by (induction es arbitrary: p) (simp_all add: page_ok_step unhandled_step)

lemma effects_step: "page_ok p \<Longrightarrow> \<exists>fs. effects (step p e) = effects p @ fs"
  by (cases e) (auto simp: upload_ok rejected_ok fulfilled_ok [of _ _ 0] page_ok_msg waiting_def set_phase_def)

lemma effects_run: "page_ok p \<Longrightarrow> \<exists>fs. effects (run p es) = effects p @ fs"
proof (induction es arbitrary: p)
  case Nil
  then show ?case by simp
next
  case (Cons e es)
  obtain fs where 1: "effects (step p e) = effects p @ fs"
    using effects_step [OF Cons.prems] by blast
  obtain gs where 2: "effects (run (step p e) es) = effects (step p e) @ gs"
    using Cons.IH [OF page_ok_step [OF Cons.prems]] by blast
  show ?case using 1 2 by simp
qed

text \<open>The label after the last event of a chain.\<close>

lemma filter_not_about: "list_all (\<lambda>e. \<not> about k e) es \<Longrightarrow> filter (about k) es = []"
  by (simp add: list_all_iff)

lemma label_rejected: "label (rejected (Elem ''msg'') e p) = Some ''Error''"
  by (simp add: rejected_ok label_def)

lemma label_fulfilled: "label (fulfilled (Elem ''msg'') d p) = Some (outcome_text (Body st d))"
  by (simp add: fulfilled_ok [of _ _ st] label_def)

lemma label_settled:
  assumes ok: "page_ok p" and k: "k < length (chains p)"
    and ph: "phase (chains p ! k) = AwaitResponse"
    and es: "filter (about k) (es @ [e]) = events_of k oc" and e: "about k e"
  shows "label (run p (es @ [e])) = Some (outcome_text oc)"
proof -
  let ?q = "run p es"
  have okq: "page_ok ?q"
    using ok by (rule page_ok_run)
  have kq: "k < length (chains ?q)"
    using ok k by (simp add: length_chains_run)
  have phq: "phase (chains ?q ! k) = foldl phase_step AwaitResponse (filter (about k) es)"
    using ok k ph by (simp add: phase_run_at)
  have split: "filter (about k) es @ [e] = events_of k oc"
    using es e by simp
  show ?thesis
  proof (cases oc)
    case (NetworkFailure x)
    with split have "filter (about k) es = []" and "e = FetchRejected k x"
      by simp_all
    with okq kq phq show ?thesis
      by (simp add: page_ok_msg waiting_def label_rejected NetworkFailure)
  next
    case (BadBody st x)
    with split have "filter (about k) es = [FetchFulfilled k st]" and "e = JsonRejected k x"
      by (simp_all add: append_eq_Cons_conv)
    with okq kq phq show ?thesis
      by (simp add: page_ok_msg waiting_def label_rejected BadBody)
  next
    case (Body st d)
    with split have "filter (about k) es = [FetchFulfilled k st]" and "e = JsonFulfilled k d"
      by (simp_all add: append_eq_Cons_conv)
    with okq kq phq show ?thesis
      by (simp add: page_ok_msg waiting_def label_fulfilled [of _ _ st] Body del: outcome_text.simps)
  qed
qed

text \<open>One call of upload, other events in between, and its request ending as oc says.\<close>

lemma label_upload_outcome:
  assumes ok: "page_ok p" and i: "i = length (chains p)"
    and es: "filter (about i) (es @ [e]) = events_of i oc" and e: "about i e"
  shows "label (run p (Upload # es @ [e])) = Some (outcome_text oc)"
proof -
  let ?p1 = "step p Upload"
  have "page_ok ?p1"
    using ok by (rule page_ok_step)
  moreover have "i < length (chains ?p1)" and "phase (chains ?p1 ! i) = AwaitResponse"
    using ok i by (simp_all add: upload_ok)
  ultimately have "label (run ?p1 (es @ [e])) = Some (outcome_text oc)"
    using es e by (rule label_settled)
  then show ?thesis by simp
qed

lemma events_of_about: "e \<in> set (events_of k oc) \<Longrightarrow> about k e"
  by (cases oc) auto

lemma about_not_Upload: "about k e \<Longrightarrow> e \<noteq> Upload"
  by (cases e) simp_all

lemma count_no_Upload: "list_all (\<lambda>e. e \<noteq> Upload) es \<Longrightarrow> count_list es Upload = 0"
  by (induction es) auto

text \<open>A page whose only chain in flight gets no settlement of its fetch does not move.\<close>

lemma step_idle:
  assumes "\<forall>k<length (chains q). phase (chains q ! k) = (if k = i then AwaitResponse else Settled)"
    and "e \<noteq> Upload" and "\<not> settles_fetch i e"
  shows "step q e = q"
  using assms by (cases e) (auto simp: waiting_def split: if_splits)

lemma run_idle:
  assumes "\<forall>k<length (chains q). phase (chains q ! k) = (if k = i then AwaitResponse else Settled)"
    and "list_all (\<lambda>e. e \<noteq> Upload \<and> \<not> settles_fetch i e) es"
  shows "run q es = q"
  using assms(2) by (induction es) (simp_all add: step_idle [OF assms(1)])

section \<open>The claims\<close>

text \<open>
  C1. When the request completes and the body parses to an object whose \<^verbatim>\<open>message\<close> is a
  text, the label ends at that text: on a page with the label, after a call of upload, the
  response of any status and the parsed body arriving for its chain (whatever happens to
  other chains in between) leave the label reading the message.
\<close>

theorem message_shown:
  assumes "page_ok p" and "i = length (chains p)"
    and "list_all (\<lambda>e. \<not> about i e) es1" and "list_all (\<lambda>e. \<not> about i e) es2"
    and "map_of props ''message'' = Some (JStr m)"
  shows "label (run p (Upload # es1 @ FetchFulfilled i st # es2 @ [JsonFulfilled i (JObject props)]))
         = Some m"
proof -
  let ?es = "es1 @ FetchFulfilled i st # es2"
  let ?oc = "Body st (JObject props)"
  have "filter (about i) (?es @ [JsonFulfilled i (JObject props)]) = events_of i ?oc"
    using assms(3,4) by (simp add: filter_not_about)
  then have "label (run p (Upload # ?es @ [JsonFulfilled i (JObject props)])) = Some (outcome_text ?oc)"
    using assms(1,2) by (intro label_upload_outcome) simp_all
  then show ?thesis
    using assms(5) by (simp add: to_DOMString_def)
qed

theorem message_shown_witness:
  "page_ok page0 \<and>
   label (run page0 [Upload, Upload, FetchFulfilled 0 200, FetchRejected 1 TypeError,
                     JsonFulfilled 0 (JObject [(''message'', JStr ''Done'')])]) = Some ''Done''"
  using message_shown [of page0 0 "[Upload]" "[FetchRejected 1 TypeError]"
      "[(''message'', JStr ''Done'')]" "''Done''" 200]
  by (simp add: page_ok_def page0_def)

text \<open>
  C2. Every call of upload first sets the label to \<^verbatim>\<open>Connecting...\<close>, before the request
  goes out and before any continuation runs: on a page with the label, the call leaves the
  label reading \<^verbatim>\<open>Connecting...\<close>; what it adds to the effects is that write and then
  the request, in this order; and whatever events follow (any outcome of the request), the
  effects of the continuations come after these two.
\<close>

theorem connecting_first:
  assumes "page_ok p"
  shows "label (snd (upload p)) = Some ''Connecting...'' \<and>
         effects (snd (upload p)) =
           effects p @ [SetText ''msg'' ''Connecting...'', Requested the_request] \<and>
         (\<exists>fs. effects (run p (Upload # es)) =
           effects p @ [SetText ''msg'' ''Connecting...'', Requested the_request] @ fs)"
proof -
  have "page_ok (step p Upload)"
    using assms by (rule page_ok_step)
  then obtain fs where "effects (run (step p Upload) es) = effects (step p Upload) @ fs"
    using effects_run by blast
  then show ?thesis
    using assms by (auto simp: upload_ok label_def)
qed

theorem connecting_first_witness:
  "page_ok page0 \<and> label (snd (upload page0)) = Some ''Connecting...'' \<and>
   effects (snd (upload page0)) = [SetText ''msg'' ''Connecting...'', Requested the_request] \<and>
   (\<exists>fs. effects (run page0 [Upload, FetchRejected 0 TypeError]) =
      [SetText ''msg'' ''Connecting...'', Requested the_request] @ fs)"
  using connecting_first [of page0 "[FetchRejected 0 TypeError]"]
  by (simp add: page_ok_def page0_def)

text \<open>
  C3. When the request fails at any stage the label ends at \<^verbatim>\<open>Error\<close>, the same text for
  every cause: after a call of upload on a page with the label, a rejection of the promise
  of \<^verbatim>\<open>fetch\<close> (a network failure), and a rejection of the promise of \<^verbatim>\<open>res.json()\<close>
  after a response of any status (a body that is not JSON or fails to parse), each with any
  reason, leave the label reading \<^verbatim>\<open>Error\<close>.
\<close>

theorem failure_shows_Error:
  assumes "page_ok p" and "i = length (chains p)"
    and "list_all (\<lambda>e. \<not> about i e) es1" and "list_all (\<lambda>e. \<not> about i e) es2"
  shows "label (run p (Upload # es1 @ [FetchRejected i e])) = Some ''Error'' \<and>
         label (run p (Upload # es1 @ FetchFulfilled i st # es2 @ [JsonRejected i e])) = Some ''Error''"
proof
  have "filter (about i) (es1 @ [FetchRejected i e]) = events_of i (NetworkFailure e)"
    using assms(3) by (simp add: filter_not_about)
  then have "label (run p (Upload # es1 @ [FetchRejected i e])) = Some (outcome_text (NetworkFailure e))"
    using assms(1,2) by (intro label_upload_outcome) simp_all
  then show "label (run p (Upload # es1 @ [FetchRejected i e])) = Some ''Error''"
    by simp
next
  let ?es = "es1 @ FetchFulfilled i st # es2"
  have "filter (about i) (?es @ [JsonRejected i e]) = events_of i (BadBody st e)"
    using assms(3,4) by (simp add: filter_not_about)
  then have "label (run p (Upload # ?es @ [JsonRejected i e])) = Some (outcome_text (BadBody st e))"
    using assms(1,2) by (intro label_upload_outcome) simp_all
  then show "label (run p (Upload # es1 @ FetchFulfilled i st # es2 @ [JsonRejected i e])) = Some ''Error''"
    by simp
qed

theorem failure_shows_Error_witness:
  "page_ok page0 \<and>
   label (run page0 [Upload, Upload, FetchRejected 0 AbortError]) = Some ''Error'' \<and>
   label (run page0 [Upload, Upload, FetchFulfilled 0 200, FetchFulfilled 1 200,
                     JsonRejected 0 AbortError]) = Some ''Error''"
  using failure_shows_Error [of page0 0 "[Upload]" "[FetchFulfilled 1 200]" AbortError 200]
  by (simp add: page_ok_def page0_def)

text \<open>
  C4, as amended. upload never consults the status of a response: a run with a non-2xx
  status is the run with status 200, event for event. So a non-2xx response ends at
  \<^verbatim>\<open>Error\<close> when its body fails to parse as JSON, and at the message when its body parses
  to an object whose \<^verbatim>\<open>message\<close> is a text.
\<close>

theorem status_not_consulted:
  assumes "page_ok p" and "i = length (chains p)"
    and "list_all (\<lambda>e. \<not> about i e) es1" and "list_all (\<lambda>e. \<not> about i e) es2"
    and "\<not> is_2xx st"
  shows "run p (Upload # es1 @ FetchFulfilled i st # fs) =
           run p (Upload # es1 @ FetchFulfilled i 200 # fs) \<and>
         (map_of props ''message'' = Some (JStr m) \<longrightarrow>
           label (run p (Upload # es1 @ FetchFulfilled i st # es2 @
                         [JsonFulfilled i (JObject props)])) = Some m) \<and>
         label (run p (Upload # es1 @ FetchFulfilled i st # es2 @ [JsonRejected i e])) = Some ''Error''"
proof (intro conjI impI)
  show "run p (Upload # es1 @ FetchFulfilled i st # fs) =
        run p (Upload # es1 @ FetchFulfilled i 200 # fs)"
    by simp
next
  let ?es = "es1 @ FetchFulfilled i st # es2"
  let ?oc = "Body st (JObject props)"
  assume m: "map_of props ''message'' = Some (JStr m)"
  have "filter (about i) (?es @ [JsonFulfilled i (JObject props)]) = events_of i ?oc"
    using assms(3,4) by (simp add: filter_not_about)
  then have "label (run p (Upload # ?es @ [JsonFulfilled i (JObject props)])) = Some (outcome_text ?oc)"
    using assms(1,2) by (intro label_upload_outcome) simp_all
  then show "label (run p (Upload # es1 @ FetchFulfilled i st # es2 @
                         [JsonFulfilled i (JObject props)])) = Some m"
    using m by (simp add: to_DOMString_def)
next
  let ?es = "es1 @ FetchFulfilled i st # es2"
  have "filter (about i) (?es @ [JsonRejected i e]) = events_of i (BadBody st e)"
    using assms(3,4) by (simp add: filter_not_about)
  then have "label (run p (Upload # ?es @ [JsonRejected i e])) = Some (outcome_text (BadBody st e))"
    using assms(1,2) by (intro label_upload_outcome) simp_all
  then show "label (run p (Upload # es1 @ FetchFulfilled i st # es2 @ [JsonRejected i e])) = Some ''Error''"
    by simp
qed

theorem status_not_consulted_witness:
  "page_ok page0 \<and> \<not> is_2xx 404 \<and>
   run page0 [Upload, FetchFulfilled 0 404, JsonFulfilled 0 JNull] =
     run page0 [Upload, FetchFulfilled 0 200, JsonFulfilled 0 JNull] \<and>
   label (run page0 [Upload, FetchFulfilled 0 404,
                     JsonFulfilled 0 (JObject [(''message'', JStr ''Not found'')])]) = Some ''Not found'' \<and>
   label (run page0 [Upload, FetchFulfilled 0 404, JsonRejected 0 SyntaxError]) = Some ''Error''"
  using status_not_consulted [of page0 0 "[]" "[]" 404 "[JsonFulfilled 0 JNull]"
      "[(''message'', JStr ''Not found'')]" "''Not found''" SyntaxError]
  by (simp add: page_ok_def page0_def is_2xx_def)

text \<open>
  As first stated, a non-2xx response always ends at \<^verbatim>\<open>Error\<close>. It does not: a response
  of status 500 whose body is \<^verbatim>\<open>{"message": "Done"}\<close> leaves the label reading
  \<^verbatim>\<open>Done\<close>.
\<close>

theorem non_2xx_message_counterexample:
  "\<not> is_2xx 500 \<and>
   label (run page0 [Upload, FetchFulfilled 0 500,
                     JsonFulfilled 0 (JObject [(''message'', JStr ''Done'')])]) = Some ''Done'' \<and>
   label (run page0 [Upload, FetchFulfilled 0 500,
                     JsonFulfilled 0 (JObject [(''message'', JStr ''Done'')])]) \<noteq> Some ''Error''"
  by (simp add: is_2xx_def page0_def label_def ops to_DOMString_def)

text \<open>
  C5. When the body parses to an object without a \<^verbatim>\<open>message\<close> property, the label ends at
  the text \<^verbatim>\<open>undefined\<close>, not at \<^verbatim>\<open>Error\<close> and not unchanged.
\<close>

theorem missing_message_undefined:
  assumes "page_ok p" and "i = length (chains p)"
    and "list_all (\<lambda>e. \<not> about i e) es1" and "list_all (\<lambda>e. \<not> about i e) es2"
    and "map_of props ''message'' = None"
  shows "label (run p (Upload # es1 @ FetchFulfilled i st # es2 @ [JsonFulfilled i (JObject props)]))
         = Some ''undefined''"
proof -
  let ?es = "es1 @ FetchFulfilled i st # es2"
  let ?oc = "Body st (JObject props)"
  have "filter (about i) (?es @ [JsonFulfilled i (JObject props)]) = events_of i ?oc"
    using assms(3,4) by (simp add: filter_not_about)
  then have "label (run p (Upload # ?es @ [JsonFulfilled i (JObject props)])) = Some (outcome_text ?oc)"
    using assms(1,2) by (intro label_upload_outcome) simp_all
  then show ?thesis
    using assms(5) by (simp add: to_DOMString_def)
qed

theorem missing_message_undefined_witness:
  "page_ok page0 \<and>
   label (run page0 [Upload, FetchFulfilled 0 200,
                     JsonFulfilled 0 (JObject [(''status'', JStr ''ok'')])]) = Some ''undefined''"
  using missing_message_undefined [of page0 0 "[]" "[]" "[(''status'', JStr ''ok'')]" 200]
  by (simp add: page_ok_def page0_def)

text \<open>
  C6. Every call of upload sends exactly one request, a POST to \<^verbatim>\<open>/api/process\<close> with no
  body and no headers of its own, and returns no value: on a page with the label the call
  ends normally with \<^verbatim>\<open>undefined\<close> and adds that one request; and in any run the requests
  sent are one such request per call, so no continuation ever sends another.
\<close>

theorem one_post_per_call:
  assumes "page_ok p"
  shows "fst (upload p) = Normal JUndefined \<and>
         requests (effects (snd (upload p))) = requests (effects p) @ [the_request] \<and>
         requests (effects (run p es)) =
           requests (effects p) @ replicate (count_list es Upload) the_request \<and>
         req_method the_request = ''POST'' \<and> req_url the_request = ''/api/process'' \<and>
         req_body the_request = None \<and> req_headers the_request = []"
  using assms by (simp add: upload_ok requests_run) (simp add: the_request_def)

theorem one_post_per_call_witness:
  "page_ok page0 \<and> fst (upload page0) = Normal JUndefined \<and>
   requests (effects (snd (upload page0))) = [the_request] \<and>
   requests (effects (run page0 [Upload, FetchFulfilled 0 200, JsonRejected 0 SyntaxError])) =
     [the_request] \<and>
   req_method the_request = ''POST'' \<and> req_url the_request = ''/api/process'' \<and>
   req_body the_request = None \<and> req_headers the_request = []"
  using one_post_per_call [of page0 "[Upload, FetchFulfilled 0 200, JsonRejected 0 SyntaxError]"]
  by (simp add: page_ok_def page0_def)

text \<open>
  C7. Two overlapping calls: the second call comes when the events \<^verbatim>\<open>pre\<close> of the first
  request have arrived and some are still to come; afterwards the remaining events of the
  first request and the events of the second arrive in any interleaving \<^verbatim>\<open>es\<close>. Each call
  sent its own request, and the label ends at the outcome of the request whose last event
  comes last: its message as text, or \<^verbatim>\<open>Error\<close> when the request failed, the body did
  not parse, or the read or the conversion of the message threw.
\<close>

theorem overlapping_calls:
  assumes ok: "page_ok p" and i: "i = length (chains p)" and j: "j = Suc i"
    and first: "pre @ filter (about i) es = events_of i o1"
    and overlap: "filter (about i) es \<noteq> []"
    and second: "filter (about j) es = events_of j o2"
    and only: "list_all (\<lambda>e. about i e \<or> about j e) es"
  shows "label (run p (Upload # pre @ Upload # es)) =
           Some (outcome_text (if about i (last es) then o1 else o2)) \<and>
         requests (effects (run p (Upload # pre @ Upload # es))) =
           requests (effects p) @ [the_request, the_request]"
proof
  have pre_i: "list_all (about i) pre"
    using first events_of_about [of _ i o1] by (simp add: list_all_iff) (metis Un_iff set_append)
  then have pre_quiet: "list_all (\<lambda>e. e \<noteq> Upload) pre"
    by (auto simp: list_all_iff dest: about_not_Upload)
  have es_quiet: "list_all (\<lambda>e. e \<noteq> Upload) es"
    using only by (auto simp: list_all_iff dest: about_not_Upload)
  have "count_list (Upload # pre @ Upload # es) Upload = 2"
    using pre_quiet es_quiet by (simp add: count_no_Upload)
  then show "requests (effects (run p (Upload # pre @ Upload # es))) =
           requests (effects p) @ [the_request, the_request]"
    using ok by (simp only: requests_run) (simp add: numeral_2_eq_2)
next
  have pre_i: "filter (about i) pre = pre"
    using first events_of_about [of _ i o1]
    by (metis Un_iff filter_True set_append)
  have pre_quiet: "count_list pre Upload = 0"
    using first events_of_about [of _ i o1] about_not_Upload
    by (intro count_no_Upload) (simp add: list_all_iff, metis Un_iff set_append)
  from overlap have "es \<noteq> []" by auto
  then obtain es' e where es: "es = es' @ [e]"
    by (metis append_butlast_last_id)
  let ?p1 = "step p Upload"
  have ok1: "page_ok ?p1" using ok by (rule page_ok_step)
  show "label (run p (Upload # pre @ Upload # es)) =
           Some (outcome_text (if about i (last es) then o1 else o2))"
  proof (cases "about i e")
    case True
    have "filter (about i) ((pre @ Upload # es') @ [e]) = events_of i o1"
      using first pre_i by (simp add: es)
    moreover have "i < length (chains ?p1)" and "phase (chains ?p1 ! i) = AwaitResponse"
      using ok i by (simp_all add: upload_ok)
    ultimately have "label (run ?p1 ((pre @ Upload # es') @ [e])) = Some (outcome_text o1)"
      using ok1 True by (intro label_settled) simp_all
    with True show ?thesis by (simp add: es)
  next
    case False
    with only have e: "about j e" by (simp add: es)
    let ?p2 = "run ?p1 pre"
    let ?p3 = "step ?p2 Upload"
    have ok2: "page_ok ?p2" using ok1 by (rule page_ok_run)
    have ok3: "page_ok ?p3" using ok2 by (rule page_ok_step)
    have len2: "length (chains ?p2) = j"
      using ok ok1 i j pre_quiet by (simp add: length_chains_run upload_ok)
    have "j < length (chains ?p3)" and "phase (chains ?p3 ! j) = AwaitResponse"
      using ok2 by (simp_all add: upload_ok len2 [symmetric])
    moreover have "filter (about j) (es' @ [e]) = events_of j o2"
      using second by (simp add: es)
    ultimately have "label (run ?p3 (es' @ [e])) = Some (outcome_text o2)"
      using ok3 e by (intro label_settled)
    with False show ?thesis by (simp add: es)
  qed
qed

theorem overlapping_calls_witness:
  "page_ok page0 \<and>
   label (run page0 [Upload, FetchFulfilled 0 200, Upload, FetchFulfilled 1 200,
                     JsonFulfilled 0 (JObject [(''message'', JStr ''Done'')]),
                     JsonFulfilled 1 (JObject [(''message'', JObject [(''toString'', JStr ''x'')])])])
     = Some ''Error'' \<and>
   label (run page0 [Upload, FetchFulfilled 0 200, Upload, FetchRejected 1 TypeError,
                     JsonFulfilled 0 (JObject [(''message'', JStr ''Done'')])]) = Some ''Done'' \<and>
   requests (effects (run page0 [Upload, FetchFulfilled 0 200, Upload, FetchRejected 1 TypeError,
                     JsonFulfilled 0 (JObject [(''message'', JStr ''Done'')])])) =
     [the_request, the_request]"
  using overlapping_calls [of page0 0 1 "[FetchFulfilled 0 200]"
      "[FetchFulfilled 1 200, JsonFulfilled 0 (JObject [(''message'', JStr ''Done'')]),
        JsonFulfilled 1 (JObject [(''message'', JObject [(''toString'', JStr ''x'')])])]"
      "Body 200 (JObject [(''message'', JStr ''Done'')])"
      "Body 200 (JObject [(''message'', JObject [(''toString'', JStr ''x'')])])"]
    overlapping_calls [of page0 0 1 "[FetchFulfilled 0 200]"
      "[FetchRejected 1 TypeError, JsonFulfilled 0 (JObject [(''message'', JStr ''Done'')])]"
      "Body 200 (JObject [(''message'', JStr ''Done'')])" "NetworkFailure TypeError"]
  by (simp add: page_ok_def page0_def to_DOMString_def)

text \<open>
  C8. A request that never completes leaves the label at \<^verbatim>\<open>Connecting...\<close>: on a page with
  the label and no other request in flight, after a call of upload, any sequence of events
  in which upload is not called again and the promise of \<^verbatim>\<open>fetch\<close> of this call neither
  fulfils nor rejects leaves the label reading \<^verbatim>\<open>Connecting...\<close> and adds no effect:
  upload sets no timer and retries nothing.
\<close>

theorem hung_request_stays_connecting:
  assumes "page_ok p" and "quiet p" and "i = length (chains p)"
    and "list_all (\<lambda>e. e \<noteq> Upload \<and> \<not> settles_fetch i e) es"
  shows "label (run p (Upload # es)) = Some ''Connecting...'' \<and>
         effects (run p (Upload # es)) =
           effects p @ [SetText ''msg'' ''Connecting...'', Requested the_request]"
proof -
  let ?q = "step p Upload"
  have "\<forall>k<length (chains ?q). phase (chains ?q ! k) = (if k = i then AwaitResponse else Settled)"
    using assms(1,2,3) by (auto simp: upload_ok quiet_def list_all_length nth_append)
  then have "run ?q es = ?q"
    using assms(4) by (rule run_idle)
  then show ?thesis
    using assms(1) by (simp add: upload_ok label_def)
qed

theorem hung_request_stays_connecting_witness:
  "page_ok page0 \<and> quiet page0 \<and>
   label (run page0 [Upload, JsonRejected 0 SyntaxError, FetchRejected 1 TypeError,
                     JsonFulfilled 0 JNull]) = Some ''Connecting...'' \<and>
   effects (run page0 [Upload, JsonRejected 0 SyntaxError, FetchRejected 1 TypeError,
                     JsonFulfilled 0 JNull]) =
     [SetText ''msg'' ''Connecting...'', Requested the_request]"
  using hung_request_stays_connecting [of page0 0
      "[JsonRejected 0 SyntaxError, FetchRejected 1 TypeError, JsonFulfilled 0 JNull]"]
  by (simp add: page_ok_def quiet_def page0_def)



text \<open>
  C10. The catch handler also takes a throw of the second continuation: when the body
  parses to a value on which reading \<^verbatim>\<open>message\<close> throws (such as \<^verbatim>\<open>null\<close>), the
  continuation throws, the label ends at \<^verbatim>\<open>Error\<close>, and no rejection is left unhandled.
\<close>

theorem throwing_read_caught:
  assumes "page_ok p" and "i = length (chains p)"
    and "list_all (\<lambda>e. \<not> about i e) es1" and "list_all (\<lambda>e. \<not> about i e) es2"
    and "get_message d = Inl x"
  shows "fst (on_data (Elem ''msg'') d q) = Throw x \<and>
         label (run p (Upload # es1 @ FetchFulfilled i st # es2 @ [JsonFulfilled i d])) = Some ''Error'' \<and>
         unhandled (run p (Upload # es1 @ FetchFulfilled i st # es2 @ [JsonFulfilled i d])) = unhandled p"
proof -
  let ?es = "es1 @ FetchFulfilled i st # es2"
  have "filter (about i) (?es @ [JsonFulfilled i d]) = events_of i (Body st d)"
    using assms(3,4) by (simp add: filter_not_about)
  then have "label (run p (Upload # ?es @ [JsonFulfilled i d])) = Some (outcome_text (Body st d))"
    using assms(1,2) by (intro label_upload_outcome) simp_all
  moreover have "unhandled (run p (Upload # ?es @ [JsonFulfilled i d])) = unhandled p"
    using assms(1) by (rule unhandled_run)
  ultimately show ?thesis
    using assms(5) by (simp add: on_data_def)
qed

theorem throwing_read_caught_witness:
  "page_ok page0 \<and> get_message JNull = Inl TypeError \<and>
   fst (on_data (Elem ''msg'') JNull page0) = Throw TypeError \<and>
   label (run page0 [Upload, FetchFulfilled 0 200, JsonFulfilled 0 JNull]) = Some ''Error'' \<and>
   unhandled (run page0 [Upload, FetchFulfilled 0 200, JsonFulfilled 0 JNull]) = []"
  using throwing_read_caught [of page0 0 "[]" "[]" JNull TypeError page0 200]
  by (simp add: page_ok_def page0_def)

end
